theory Spec2Isabelle
  imports Main "HOL-Library.Sublist"
begin

section \<open>The dataflow core: data model\<close>

text \<open>
  A shallow embedding of \<^verbatim>\<open>src/dataflow/core.py\<close>. Python classes are records, the
  fields keep the attribute names of the source behind a prefix naming the class
  (several classes share \<^verbatim>\<open>id\<close>, \<^verbatim>\<open>name\<close>, \<^verbatim>\<open>version\<close>). Values the core never
  inspects (icons, field forms, actions, node configuration, history entries) are
  carried as \<open>pyval\<close>. Attributes have the types their docstrings give: \<^verbatim>\<open>terminals\<close>,
  \<^verbatim>\<open>datatypes\<close>, \<^verbatim>\<open>menu\<close>, \<^verbatim>\<open>modules\<close> and \<^verbatim>\<open>wires\<close> are lists, and the node index
  at the end of a wire is a natural number.
\<close>

datatype pyval =
    PyNone
  | PyInt int
  | PyStr string
  | PyList "pyval list"
  | PyDict "(string \<times> pyval) list"
  | PyCallable string

text \<open>
  Every \<^verbatim>\<open>raise\<close> of the source is one constructor:
  \<^item> \<open>ModuleAlreadyRegistered\<close> is \<^verbatim>\<open>ValueError("Module already registered")\<close>;
  \<^item> \<open>KeyError k\<close> is the \<^verbatim>\<open>KeyError\<close> of the dictionary read \<^verbatim>\<open>_registry[id]\<close>;
  \<^item> \<open>UndefinedTypes S\<close> is \<^verbatim>\<open>TypeError("undefined types: ...")\<close>, \<open>S\<close> the set joined
    into the message (Python joins it in the set's iteration order);
  \<^item> \<open>UnusedTypes S\<close> is \<^verbatim>\<open>TypeError("unused types: ...")\<close>;
  \<^item> \<open>NamesNotUnique\<close> is \<^verbatim>\<open>TypeError("names must be unique within an instrument")\<close>;
  \<^item> \<open>TemplateDefinitionMismatch\<close> is \<^verbatim>\<open>TypeError('Template definition mismatch')\<close>;
  \<^item> \<open>NameError x\<close> is the \<^verbatim>\<open>NameError\<close> of reading the unbound global \<open>x\<close>;
  \<^item> \<open>CycleError\<close> is the failure of the topology resolver.

  The specification names the kinds of failure apart from the exception classes:
  its RegistrationConflict is \<open>ModuleAlreadyRegistered\<close>, its NotFound is \<open>KeyError\<close>, its
  DatatypeInvariantViolation is \<open>UndefinedTypes\<close> or \<open>UnusedTypes\<close>, its
  DuplicateNameViolation is \<open>NamesNotUnique\<close>, its FormatMismatchError is
  \<open>TemplateDefinitionMismatch\<close>.
\<close>

datatype error =
    ModuleAlreadyRegistered
  | KeyError string
  | UndefinedTypes "string set"
  | UnusedTypes "string set"
  | NamesNotUnique
  | TemplateDefinitionMismatch
  | NameError string
  | CycleError

record Terminal =
  term_id :: string
  term_datatype :: string
  term_use :: string
  term_description :: string
  term_required :: bool
  term_multiple :: bool

record Module =
  mod_id :: string
  mod_version :: string
  mod_name :: string
  mod_description :: string
  mod_icon :: pyval
  mod_fields :: pyval
  mod_terminals :: "Terminal list"
  mod_action :: pyval

record Datatype =
  dtype_id :: string
  dtype_name :: string
  dtype_plot :: pyval

record TemplateModule =
  node_module :: string
  node_version :: string
  node_config :: pyval
  node_position :: "int \<times> int"

record Wire =
  wire_source :: "nat \<times> string"
  wire_target :: "nat \<times> string"

record Template =
  tmpl_name :: string
  tmpl_description :: string
  tmpl_modules :: "TemplateModule list"
  tmpl_wires :: "Wire list"
  tmpl_instrument :: string
  tmpl_version :: string

record Instrument =
  inst_id :: string
  inst_name :: string
  inst_menu :: "(string \<times> Module list) list"
  inst_datatypes :: "Datatype list"
  inst_requires :: "string list"
  inst_archive :: string
  inst_modules :: "Module list"

record Data =
  data_name :: string
  data_datatype :: string
  data_intent :: string
  data_dataid :: string
  data_history :: "pyval list"


section \<open>Registry\<close>

text \<open>
  \<^verbatim>\<open>_registry\<close> is a dictionary from module ids to Module objects. \<^verbatim>\<open>register_module\<close>
  compares the new object with the registered one by \<^verbatim>\<open>!=\<close>. The class \<^verbatim>\<open>Module\<close>
  defines none of \<^verbatim>\<open>__eq__\<close>, \<^verbatim>\<open>__ne__\<close>, \<^verbatim>\<open>__cmp__\<close>, so \<^verbatim>\<open>!=\<close> is Python's default
  comparison of instances: by object identity. Objects are therefore references
  into a store of Module states, the registry holds references, and \<^verbatim>\<open>!=\<close> compares
  the references.
\<close>

type_synonym ref = nat
type_synonym store = "ref \<Rightarrow> Module"
type_synonym registry = "string \<rightharpoonup> ref"

definition register_module :: "store \<Rightarrow> ref \<Rightarrow> registry \<Rightarrow> (error + unit) \<times> registry" where
  "register_module heap m reg =
     (if mod_id (heap m) \<in> dom reg \<and> Some m \<noteq> reg (mod_id (heap m))
      then (Inl ModuleAlreadyRegistered, reg)
      else (Inr (), reg(mod_id (heap m) \<mapsto> m)))"

definition lookup_module :: "registry \<Rightarrow> string \<Rightarrow> error + ref" where
  "lookup_module reg i = (case reg i of None \<Rightarrow> Inl (KeyError i) | Some m \<Rightarrow> Inr m)"


section \<open>Topology resolver\<close>

text \<open>
  Modelled from the spec: \<^verbatim>\<open>processing_order\<close> of \<^verbatim>\<open>dataflow/deps.py\<close>, which
  \<^verbatim>\<open>core.py\<close> imports and which is not among the sources. Section 4.2 of the
  specification: the input is a node count \<open>n\<close> and directed edges \<open>(u, v)\<close>, node \<open>u\<close>
  before node \<open>v\<close>; the algorithm is Kahn's topological sort on in-degree counts, and
  among the nodes with no unresolved dependency at a step the smallest node index is
  chosen next; the output is a sequence with each node index once, or \<open>CycleError\<close>.
  \<open>indegree\<close> counts the edges into \<open>v\<close> whose source is not yet in the output;
  the cycle that the specification's \<open>CycleError\<close> names is not modelled.
\<close>

definition indegree :: "(nat \<times> nat) list \<Rightarrow> nat list \<Rightarrow> nat \<Rightarrow> nat" where
  "indegree pairs out v = length (filter (\<lambda>(u, w). w = v \<and> u \<notin> set out) pairs)"

definition ready :: "(nat \<times> nat) list \<Rightarrow> nat list \<Rightarrow> nat \<Rightarrow> bool" where
  "ready pairs out v \<longleftrightarrow> v \<notin> set out \<and> indegree pairs out v = 0"

function kahn :: "nat \<Rightarrow> (nat \<times> nat) list \<Rightarrow> nat list \<Rightarrow> error + nat list" where
  "kahn n pairs out =
     (case find (ready pairs out) [0..<n] of
        Some v \<Rightarrow> kahn n pairs (out @ [v])
      | None \<Rightarrow> if length out = n then Inr out else Inl CycleError)"
  by pat_completeness auto
termination
proof (relation "measure (\<lambda>(n, pairs, out). card ({0..<n} - set out))")
  show "wf (measure (\<lambda>(n, pairs, out). card ({0..<n} - set out)))"
    by simp
next
  fix n :: nat and pairs :: "(nat \<times> nat) list" and out :: "nat list" and v :: nat
  assume "find (ready pairs out) [0..<n] = Some v"
  then have "v < n" and "ready pairs out v"
    by (auto simp: find_Some_iff)
  then have "v \<in> {0..<n} - set out"
    by (simp add: ready_def)
  then have "card (({0..<n} - set out) - {v}) < card ({0..<n} - set out)"
    by (intro card_Diff1_less) simp_all
  moreover have "{0..<n} - set (out @ [v]) = ({0..<n} - set out) - {v}"
    by auto
  ultimately have "card ({0..<n} - set (out @ [v])) < card ({0..<n} - set out)"
    by metis
  then show "((n, pairs, out @ [v]), (n, pairs, out))
      \<in> measure (\<lambda>(n, pairs, out). card ({0..<n} - set out))"
    by simp
qed

declare kahn.simps [simp del]

definition processing_order :: "nat \<Rightarrow> (nat \<times> nat) list \<Rightarrow> error + nat list" where
  "processing_order n pairs = kahn n pairs []"


section \<open>Template\<close>

definition order :: "Template \<Rightarrow> error + nat list" where
  "order self =
     (let pairs = map (\<lambda>w. (fst (wire_source w), fst (wire_target w))) (tmpl_wires self)
      in processing_order (length (tmpl_modules self)) pairs)"

text \<open>
  \<^verbatim>\<open>__iter__\<close> is a generator: \<^verbatim>\<open>self.order()\<close> is evaluated in full before the first
  pair is yielded, so an error of \<^verbatim>\<open>order\<close> is raised with nothing yielded.
\<close>

definition Template_iter :: "Template \<Rightarrow> error + (nat \<times> Wire list) list" where
  "Template_iter self =
     (case order self of
        Inl e \<Rightarrow> Inl e
      | Inr ids \<Rightarrow>
          Inr (map (\<lambda>i. (i, filter (\<lambda>w. fst (wire_target w) = i) (tmpl_wires self))) ids))"

text \<open>
  The instance dictionary \<^verbatim>\<open>self.__dict__\<close> of a Template holds exactly the six
  attributes set by \<^verbatim>\<open>__init__\<close>; it is the record itself. The pickled state is the
  pair of the tag and that dictionary.
\<close>

definition Template_getstate :: "Template \<Rightarrow> string \<times> Template" where
  "Template_getstate self = (''1.0'', self)"

definition Template_setstate :: "string \<times> Template \<Rightarrow> error + Template" where
  "Template_setstate state =
     (case state of (version, st) \<Rightarrow>
        if version \<noteq> ''1.0'' then Inl TemplateDefinitionMismatch else Inr st)"


section \<open>Instrument\<close>

definition check_datatypes :: "Instrument \<Rightarrow> error + unit" where
  "check_datatypes self =
     (let defined = set (map dtype_id (inst_datatypes self));
          used = (\<Union>m \<in> set (inst_modules self). set (map term_datatype (mod_terminals m)))
      in if used - defined \<noteq> {} then Inl (UndefinedTypes (used - defined))
         else if defined - used \<noteq> {} then Inl (UnusedTypes (defined - used))
         else Inr ())"

definition check_names :: "Instrument \<Rightarrow> error + unit" where
  "check_names self =
     (let names = set (map mod_name (inst_modules self))
      in if card names \<noteq> length (inst_modules self) then Inl NamesNotUnique else Inr ())"

definition Instrument_init ::
  "string \<Rightarrow> string \<Rightarrow> (string \<times> Module list) list \<Rightarrow> Datatype list \<Rightarrow> string list \<Rightarrow> string
     \<Rightarrow> error + Instrument" where
  "Instrument_init i name menu datatypes requires archive =
     (let self = \<lparr>inst_id = i, inst_name = name, inst_menu = menu,
                  inst_datatypes = datatypes, inst_requires = requires,
                  inst_archive = archive, inst_modules = concat (map snd menu)\<rparr>
      in case check_datatypes self of
           Inl e \<Rightarrow> Inl e
         | Inr _ \<Rightarrow> (case check_names self of Inl e \<Rightarrow> Inl e | Inr _ \<Rightarrow> Inr self))"


section \<open>Data\<close>

text \<open>
  \<^verbatim>\<open>Data.__getstate__\<close> returns \<^verbatim>\<open>"1.0", __dict__\<close>: the bare name \<^verbatim>\<open>__dict__\<close> (not
  \<^verbatim>\<open>self.__dict__\<close>) is bound neither locally, nor in the module, nor among the
  builtins, so evaluating it raises \<^verbatim>\<open>NameError\<close>. \<^verbatim>\<open>Data.__setstate__\<close> unpacks the
  tag and installs the state without looking at the tag.
\<close>

definition Data_getstate :: "Data \<Rightarrow> error + string \<times> Data" where
  "Data_getstate self = Inl (NameError ''__dict__'')"

definition Data_setstate :: "string \<times> Data \<Rightarrow> error + Data" where
  "Data_setstate state = (case state of (version, st) \<Rightarrow> Inr st)"


section \<open>Vocabulary of the properties\<close>

text \<open>
  The node-to-node edges of a template's wires, and the templates whose wires name
  nodes of the template only.
\<close>

definition edges :: "Template \<Rightarrow> (nat \<times> nat) set" where
  "edges t = (\<lambda>w. (fst (wire_source w), fst (wire_target w))) ` set (tmpl_wires t)"

definition well_wired :: "Template \<Rightarrow> bool" where
  "well_wired t \<longleftrightarrow>
     (\<forall>w \<in> set (tmpl_wires t).
        fst (wire_source w) < length (tmpl_modules t) \<and>
        fst (wire_target w) < length (tmpl_modules t))"

text \<open>
  \<open>position xs v\<close> is Python's \<^verbatim>\<open>xs.index(v)\<close> for a \<open>v\<close> in \<open>xs\<close>; \<open>precedes xs u v\<close>
  says that both occur and \<open>u\<close> comes first.
\<close>

definition position :: "nat list \<Rightarrow> nat \<Rightarrow> nat" where
  "position xs v = length (takeWhile (\<lambda>x. x \<noteq> v) xs)"

definition precedes :: "nat list \<Rightarrow> nat \<Rightarrow> nat \<Rightarrow> bool" where
  "precedes xs u v \<longleftrightarrow> u \<in> set xs \<and> v \<in> set xs \<and> position xs u < position xs v"

text \<open>
  A node is unblocked after the nodes \<open>emitted\<close> when it is a node of the template, is
  not emitted yet, and every wire into it comes from an emitted node.
\<close>

definition unblocked :: "Template \<Rightarrow> nat list \<Rightarrow> nat \<Rightarrow> bool" where
  "unblocked t emitted v \<longleftrightarrow>
     v < length (tmpl_modules t) \<and> v \<notin> set emitted \<and>
     (\<forall>w \<in> set (tmpl_wires t). fst (wire_target w) = v \<longrightarrow> fst (wire_source w) \<in> set emitted)"

text \<open>The loop invariant of \<open>kahn\<close>.\<close>

definition least_ready :: "nat \<Rightarrow> (nat \<times> nat) list \<Rightarrow> nat list \<Rightarrow> bool" where
  "least_ready n pairs xs \<longleftrightarrow>
     (\<forall>k<length xs. xs ! k < n \<and> ready pairs (take k xs) (xs ! k) \<and>
        (\<forall>v<xs ! k. \<not> ready pairs (take k xs) v))"

definition kahn_inv :: "nat \<Rightarrow> (nat \<times> nat) list \<Rightarrow> nat list \<Rightarrow> bool" where
  "kahn_inv n pairs out \<longleftrightarrow>
     distinct out \<and> set out \<subseteq> {0..<n} \<and>
     (\<forall>(u, v) \<in> set pairs. v \<in> set out \<longrightarrow> precedes out u v) \<and>
     least_ready n pairs out"

text \<open>
  A history of \<^verbatim>\<open>register_module\<close> calls on one registry, each call's exception caught
  by its caller: the registry after the calls, and the modules whose call returned,
  the latest first.
\<close>

fun registrations :: "store \<Rightarrow> ref list \<Rightarrow> registry \<times> ref list \<Rightarrow> registry \<times> ref list" where
  "registrations heap [] s = s"
| "registrations heap (m # ms) (reg, acc) =
     (case register_module heap m reg of
        (Inl e, reg') \<Rightarrow> registrations heap ms (reg', acc)
      | (Inr u, reg') \<Rightarrow> registrations heap ms (reg', m # acc))"

text \<open>The datatype ids an instrument declares, and those its modules' terminals use.\<close>

definition declared :: "Datatype list \<Rightarrow> string set" where
  "declared datatypes = dtype_id ` set datatypes"

definition referenced :: "Module list \<Rightarrow> string set" where
  "referenced ms = {term_datatype t | t m. m \<in> set ms \<and> t \<in> set (mod_terminals m)}"


section \<open>Example values\<close>

text \<open>
  The wiring of the template that \<^verbatim>\<open>offspecular/instruments.py\<close> builds for its test
  run (load, save, join, offset, wiggle, twotheta, qxqz), the node configurations
  left empty, and modules in the shape of \<^verbatim>\<open>modules/join.py\<close> and
  \<^verbatim>\<open>modules/wiggle.py\<close>.
\<close>

definition ospec_node :: "string \<Rightarrow> int \<times> int \<Rightarrow> TemplateModule" where
  "ospec_node m pos =
     \<lparr>node_module = m, node_version = ''1.0'', node_config = PyDict [], node_position = pos\<rparr>"

definition ospec_modules :: "TemplateModule list" where
  "ospec_modules =
     [ospec_node ''ospec.load'' (50, 50), ospec_node ''ospec.save'' (650, 350),
      ospec_node ''ospec.join'' (150, 100), ospec_node ''ospec.offset'' (250, 150),
      ospec_node ''ospec.wiggle'' (350, 200), ospec_node ''ospec.twotheta'' (450, 250),
      ospec_node ''ospec.qxqz'' (550, 300)]"

definition wire :: "nat \<Rightarrow> nat \<Rightarrow> Wire" where
  "wire u v = \<lparr>wire_source = (u, ''output''), wire_target = (v, ''input'')\<rparr>"

definition ospec_template :: "Wire list \<Rightarrow> Template" where
  "ospec_template ws =
     \<lparr>tmpl_name = ''test ospec'', tmpl_description = ''example ospec diagram'',
      tmpl_modules = ospec_modules, tmpl_wires = ws,
      tmpl_instrument = ''ncnr.ospec.andr'', tmpl_version = ''0.0''\<rparr>"

definition ospec_wires :: "Wire list" where
  "ospec_wires = [wire 0 2, wire 2 3, wire 3 4, wire 4 5, wire 5 6, wire 6 1]"

definition ospec_terminals :: "Terminal list" where
  "ospec_terminals =
     [\<lparr>term_id = ''input'', term_datatype = ''data2d.ospec'', term_use = ''in'',
       term_description = ''data'', term_required = False, term_multiple = True\<rparr>,
      \<lparr>term_id = ''output'', term_datatype = ''data2d.ospec'', term_use = ''out'',
       term_description = ''result'', term_required = False, term_multiple = False\<rparr>]"

definition ospec_module :: "string \<Rightarrow> string \<Rightarrow> Module" where
  "ospec_module i name =
     \<lparr>mod_id = i, mod_version = ''1.0'', mod_name = name, mod_description = name,
      mod_icon = PyNone, mod_fields = PyList [], mod_terminals = ospec_terminals,
      mod_action = PyCallable name\<rparr>"

definition data2d :: Datatype where
  "data2d = \<lparr>dtype_id = ''data2d.ospec'', dtype_name = ''2-D Offspecular Data'',
             dtype_plot = PyStr ''ospecplot''\<rparr>"

text \<open>
  A store in which every reference holds a module built by the same call
  \<^verbatim>\<open>join_module(id='ospec.join', ...)\<close>: distinct objects of equal state. And a store
  of two modules.
\<close>

definition join_copies :: store where
  "join_copies r = ospec_module ''ospec.join'' ''Join''"

definition two_modules :: store where
  "two_modules r =
     (if r = 3 then ospec_module ''ospec.join'' ''Join''
      else ospec_module ''ospec.wiggle'' ''Wiggle'')"

text \<open>
  The constructor call of \<^verbatim>\<open>offspecular/instruments.py\<close> for the instrument ANDR, for a
  menu and a list of datatypes, and the instrument it builds; a menu of two modules,
  and a menu of two modules of one display name.
\<close>

definition andr :: "(string \<times> Module list) list \<Rightarrow> Datatype list \<Rightarrow> error + Instrument" where
  "andr menu datatypes =
     Instrument_init ''ncnr.ospec.andr'' ''NCNR ANDR'' menu datatypes [''ospecplot.js''] ''andr''"

definition andr_instrument :: "(string \<times> Module list) list \<Rightarrow> Datatype list \<Rightarrow> Instrument" where
  "andr_instrument menu datatypes =
     \<lparr>inst_id = ''ncnr.ospec.andr'', inst_name = ''NCNR ANDR'', inst_menu = menu,
      inst_datatypes = datatypes, inst_requires = [''ospecplot.js''],
      inst_archive = ''andr'', inst_modules = concat (map snd menu)\<rparr>"

definition reduction_menu :: "(string \<times> Module list) list" where
  "reduction_menu =
     [(''Reduction'', [ospec_module ''ospec.join'' ''Join'', ospec_module ''ospec.wiggle'' ''Wiggle''])]"

definition doubled_menu :: "(string \<times> Module list) list" where
  "doubled_menu =
     [(''Input'', [ospec_module ''ospec.join'' ''Join'']),
      (''Reduction'', [ospec_module ''ospec.sum'' ''Join''])]"

definition some_data :: Data where
  "some_data = \<lparr>data_name = ''Isabc2002.cg1'', data_datatype = ''data2d.ospec'',
                data_intent = ''signal'', data_dataid = ''k1'', data_history = []\<rparr>"


section \<open>The resolver's invariant\<close>

lemma ready_iff:
  "ready pairs out v \<longleftrightarrow> v \<notin> set out \<and> (\<forall>(u, w) \<in> set pairs. w = v \<longrightarrow> u \<in> set out)"
  by (auto simp: ready_def indegree_def filter_empty_conv)

lemma position_append_in: "v \<in> set xs \<Longrightarrow> position (xs @ ys) v = position xs v"
  by (simp add: position_def)

lemma position_snoc_new: "v \<notin> set xs \<Longrightarrow> position (xs @ [v]) v = length xs"
  by (induction xs) (auto simp: position_def)

lemma position_less: "v \<in> set xs \<Longrightarrow> position xs v < length xs"
  by (induction xs) (auto simp: position_def)

lemma precedes_snoc_old: "precedes out u v \<Longrightarrow> precedes (out @ [x]) u v"
  by (simp add: precedes_def position_append_in)

lemma precedes_snoc_new: "u \<in> set out \<Longrightarrow> v \<notin> set out \<Longrightarrow> precedes (out @ [v]) u v"
  by (simp add: precedes_def position_append_in position_snoc_new position_less)

lemma find_upt_Some:
  "find P [0..<n] = Some v \<longleftrightarrow> v < n \<and> P v \<and> (\<forall>j<v. \<not> P j)"
  by (auto simp: find_Some_iff)

lemma find_upt_None: "find P [0..<n] = None \<longleftrightarrow> (\<forall>v<n. \<not> P v)"
  by (auto simp: find_None_iff)

lemma least_ready_snoc:
  assumes "least_ready n pairs out" and "find (ready pairs out) [0..<n] = Some v"
  shows "least_ready n pairs (out @ [v])"
  unfolding least_ready_def
proof (intro allI impI)
  fix k assume k: "k < length (out @ [v])"
  show "(out @ [v]) ! k < n \<and> ready pairs (take k (out @ [v])) ((out @ [v]) ! k) \<and>
        (\<forall>w<(out @ [v]) ! k. \<not> ready pairs (take k (out @ [v])) w)"
  proof (cases "k < length out")
    case True
    then show ?thesis
      using assms(1) by (simp add: least_ready_def nth_append)
  next
    case False
    with k have "k = length out" by simp
    then show ?thesis
      using assms(2) by (simp add: find_upt_Some)
  qed
qed

lemma kahn_inv_Nil: "kahn_inv n pairs []"
  by (simp add: kahn_inv_def least_ready_def)

lemma kahn_inv_snoc:
  assumes inv: "kahn_inv n pairs out" and f: "find (ready pairs out) [0..<n] = Some v"
  shows "kahn_inv n pairs (out @ [v])"
proof -
  from f have v: "v < n" "ready pairs out v"
    by (simp_all add: find_upt_Some)
  then have fresh: "v \<notin> set out" and srcs: "\<And>u. (u, v) \<in> set pairs \<Longrightarrow> u \<in> set out"
    by (auto simp: ready_iff)
  have "distinct (out @ [v])"
    using inv fresh by (simp add: kahn_inv_def)
  moreover have "set (out @ [v]) \<subseteq> {0..<n}"
    using inv v(1) by (simp add: kahn_inv_def)
  moreover have "\<forall>(u, w) \<in> set pairs. w \<in> set (out @ [v]) \<longrightarrow> precedes (out @ [v]) u w"
  proof (clarify)
    fix u w assume e: "(u, w) \<in> set pairs" and w: "w \<in> set (out @ [v])"
    show "precedes (out @ [v]) u w"
    proof (cases "w = v")
      case True
      then show ?thesis using srcs e fresh by (simp add: precedes_snoc_new)
    next
      case False
      with w have "w \<in> set out" by simp
      with inv e have "precedes out u w" by (auto simp: kahn_inv_def)
      then show ?thesis by (rule precedes_snoc_old)
    qed
  qed
  moreover have "least_ready n pairs (out @ [v])"
    using inv f by (simp add: kahn_inv_def least_ready_snoc)
  ultimately show ?thesis
    by (simp add: kahn_inv_def)
qed

lemma kahn_result:
  "kahn_inv n pairs out \<Longrightarrow> kahn n pairs out = Inr xs \<Longrightarrow> kahn_inv n pairs xs \<and> length xs = n"
proof (induction n pairs out rule: kahn.induct)
  case (1 n pairs out)
  show ?case
  proof (cases "find (ready pairs out) [0..<n]")
    case None
    with "1.prems" show ?thesis
      by (simp add: kahn.simps[of n pairs out] split: if_splits)
  next
    case (Some v)
    with "1.prems" have "kahn n pairs (out @ [v]) = Inr xs"
      by (simp add: kahn.simps[of n pairs out])
    moreover have "kahn_inv n pairs (out @ [v])"
      using "1.prems"(1) Some by (rule kahn_inv_snoc)
    ultimately show ?thesis
      using "1.IH" Some by blast
  qed
qed

lemma kahn_error: "kahn n pairs out = Inl e \<Longrightarrow> e = CycleError"
proof (induction n pairs out rule: kahn.induct)
  case (1 n pairs out)
  show ?case
  proof (cases "find (ready pairs out) [0..<n]")
    case None
    with "1.prems" show ?thesis
      by (simp add: kahn.simps[of n pairs out] split: if_splits)
  next
    case (Some v)
    with "1.prems" have "kahn n pairs (out @ [v]) = Inl e"
      by (simp add: kahn.simps[of n pairs out])
    with "1.IH" Some show ?thesis by blast
  qed
qed

text \<open>
  When no node is ready and some node is left, every node left has an edge from a node
  left: the edges are not well-founded, so they have a cycle.
\<close>

lemma stuck_has_cycle:
  assumes inv: "kahn_inv n pairs out"
    and none: "find (ready pairs out) [0..<n] = None"
    and srcs: "\<forall>(u, v) \<in> set pairs. u < n"
    and acyc: "acyclic (set pairs)"
  shows "length out = n"
proof (rule ccontr)
  assume neq: "length out \<noteq> n"
  let ?S = "{0..<n} - set out"
  from inv have "card (set out) = length out" and sub: "set out \<subseteq> {0..<n}"
    by (simp_all add: kahn_inv_def distinct_card)
  with neq have "set out \<noteq> {0..<n}" by auto
  with sub have ne: "?S \<noteq> {}" by auto
  have "wf (set pairs)"
    using acyc by (simp add: finite_acyclic_wf)
  from this ne obtain z where z: "z \<in> ?S" and zmin: "\<And>y. (y, z) \<in> set pairs \<Longrightarrow> y \<notin> ?S"
    by (rule wfE_min') blast
  from z none have "\<not> ready pairs out z"
    by (simp add: find_upt_None)
  with z obtain u where "(u, z) \<in> set pairs" "u \<notin> set out"
    by (auto simp: ready_iff)
  moreover from this srcs have "u < n" by auto
  ultimately show False using zmin by auto
qed

lemma kahn_succeeds:
  "kahn_inv n pairs out \<Longrightarrow> \<forall>(u, v) \<in> set pairs. u < n \<Longrightarrow> acyclic (set pairs)
     \<Longrightarrow> \<exists>xs. kahn n pairs out = Inr xs"
proof (induction n pairs out rule: kahn.induct)
  case (1 n pairs out)
  show ?case
  proof (cases "find (ready pairs out) [0..<n]")
    case None
    with "1.prems" have "length out = n" by (simp add: stuck_has_cycle)
    with None show ?thesis by (simp add: kahn.simps[of n pairs out])
  next
    case (Some v)
    have "kahn_inv n pairs (out @ [v])"
      using "1.prems"(1) Some by (rule kahn_inv_snoc)
    with "1.IH" Some "1.prems" obtain xs where "kahn n pairs (out @ [v]) = Inr xs" by blast
    with Some show ?thesis by (simp add: kahn.simps[of n pairs out])
  qed
qed

lemma complete_set: "distinct xs \<Longrightarrow> set xs \<subseteq> {0..<n} \<Longrightarrow> length xs = n \<Longrightarrow> set xs = {0..<n}"
  by (metis card_atLeastLessThan card_subset_eq diff_zero distinct_card finite_atLeastLessThan)

lemma ordered_acyclic:
  assumes "\<forall>(u, v) \<in> r. precedes xs u v"
  shows "acyclic r"
proof -
  have "r \<subseteq> measure (position xs)"
    using assms by (auto simp: precedes_def)
  then show ?thesis
    by (meson acyclic_subset wf_acyclic wf_measure)
qed


section \<open>What \<open>order\<close> returns\<close>

lemma well_wired_edges:
  "well_wired t \<Longrightarrow> (u, v) \<in> edges t \<Longrightarrow>
     u < length (tmpl_modules t) \<and> v < length (tmpl_modules t)"
  by (auto simp: well_wired_def edges_def)

lemma ready_unblocked:
  "v < length (tmpl_modules t) \<Longrightarrow>
   ready (map (\<lambda>w. (fst (wire_source w), fst (wire_target w))) (tmpl_wires t)) out v
     \<longleftrightarrow> unblocked t out v"
  by (auto simp: ready_iff unblocked_def)

text \<open>A returned order, for any wiring.\<close>

lemma order_Inr:
  assumes "order t = Inr xs"
  shows "length xs = length (tmpl_modules t)"
    and "distinct xs"
    and "set xs = {0..<length (tmpl_modules t)}"
    and "\<And>u v. (u, v) \<in> edges t \<Longrightarrow> v < length (tmpl_modules t) \<Longrightarrow> precedes xs u v"
    and "\<And>k. k < length (tmpl_modules t) \<Longrightarrow>
           unblocked t (take k xs) (xs ! k) \<and> (\<forall>v<xs ! k. \<not> unblocked t (take k xs) v)"
proof -
  let ?n = "length (tmpl_modules t)"
  let ?pairs = "map (\<lambda>w. (fst (wire_source w), fst (wire_target w))) (tmpl_wires t)"
  from assms have "kahn ?n ?pairs [] = Inr xs"
    by (simp add: order_def processing_order_def Let_def)
  with kahn_inv_Nil have inv: "kahn_inv ?n ?pairs xs" and len: "length xs = ?n"
    using kahn_result by blast+
  show "length xs = ?n" by (rule len)
  show "distinct xs" using inv by (simp add: kahn_inv_def)
  show all: "set xs = {0..<?n}"
    using inv len by (simp add: kahn_inv_def complete_set)
  show "precedes xs u v" if "(u, v) \<in> edges t" and "v < ?n" for u v
  proof -
    from that(1) have "(u, v) \<in> set ?pairs" by (simp add: edges_def)
    moreover from that(2) all have "v \<in> set xs" by simp
    ultimately show ?thesis using inv by (auto simp: kahn_inv_def)
  qed
  show "unblocked t (take k xs) (xs ! k) \<and> (\<forall>v<xs ! k. \<not> unblocked t (take k xs) v)"
    if "k < ?n" for k
  proof -
    from inv that len have k: "xs ! k < ?n" "ready ?pairs (take k xs) (xs ! k)"
      "\<forall>v<xs ! k. \<not> ready ?pairs (take k xs) v"
      by (simp_all add: kahn_inv_def least_ready_def)
    from k(1,2) have "unblocked t (take k xs) (xs ! k)"
      by (simp add: ready_unblocked)
    moreover have "\<not> unblocked t (take k xs) v" if "v < xs ! k" for v
    proof -
      from that k(1) have "v < ?n" by simp
      moreover from that k(3) have "\<not> ready ?pairs (take k xs) v" by blast
      ultimately show ?thesis by (simp add: ready_unblocked)
    qed
    ultimately show ?thesis by blast
  qed
qed

lemma order_Inl: "order t = Inl e \<Longrightarrow> e = CycleError"
  by (simp add: order_def processing_order_def Let_def kahn_error)

lemma order_acyclic_Inr:
  assumes "well_wired t" and "acyclic (edges t)"
  shows "\<exists>xs. order t = Inr xs"
proof -
  let ?n = "length (tmpl_modules t)"
  let ?pairs = "map (\<lambda>w. (fst (wire_source w), fst (wire_target w))) (tmpl_wires t)"
  have "\<forall>(u, v) \<in> set ?pairs. u < ?n"
    using assms(1) by (auto simp: well_wired_def)
  moreover have "acyclic (set ?pairs)"
    using assms(2) by (simp add: edges_def)
  ultimately have "\<exists>xs. kahn ?n ?pairs [] = Inr xs"
    using kahn_inv_Nil by (rule kahn_succeeds[rotated])
  then show ?thesis
    by (simp add: order_def processing_order_def Let_def)
qed

lemma order_Inr_acyclic:
  assumes "well_wired t" and "order t = Inr xs"
  shows "acyclic (edges t)"
proof (rule ordered_acyclic)
  show "\<forall>(u, v) \<in> edges t. precedes xs u v"
    using assms by (auto dest: well_wired_edges intro: order_Inr(4))
qed

lemma self_loop_cyclic: "(v, v) \<in> r \<Longrightarrow> \<not> acyclic r"
  by (auto simp: acyclic_def)

lemma two_cycle_cyclic: "(u, v) \<in> r \<Longrightarrow> (v, u) \<in> r \<Longrightarrow> \<not> acyclic r"
  by (meson acyclic_def trancl.intros)

subsection \<open>The example template\<close>

lemma ospec_well_wired: "well_wired (ospec_template ospec_wires)"
  by (simp add: well_wired_def ospec_template_def ospec_wires_def ospec_modules_def wire_def)

lemma ospec_acyclic: "acyclic (edges (ospec_template ospec_wires))"
  by (rule ordered_acyclic[where xs = "[0, 2, 3, 4, 5, 6, 1]"])
     (simp add: edges_def ospec_template_def ospec_wires_def wire_def precedes_def position_def)

lemma ospec_order: "order (ospec_template ospec_wires) = Inr [0, 2, 3, 4, 5, 6, 1]"
  by code_simp

lemma isolated_order: "order (ospec_template []) = Inr [0, 1, 2, 3, 4, 5, 6]"
  by code_simp

lemma ospec_iter:
  "Template_iter (ospec_template ospec_wires) =
     Inr [(0, []), (2, [wire 0 2]), (3, [wire 2 3]), (4, [wire 3 4]), (5, [wire 4 5]),
          (6, [wire 5 6]), (1, [wire 6 1])]"
  by (simp add: Template_iter_def ospec_order)
     (simp add: ospec_template_def ospec_wires_def wire_def)


section \<open>Claims on the topology resolver and the template\<close>

text \<open>
  C1. For a template of \<open>n\<close> nodes whose wires name nodes of the template and have no
  cycle, \<open>order\<close> returns a sequence of length \<open>n\<close> that holds every node index
  \<open>0..n-1\<close> exactly once (so the nodes without wires too), in which the source node of
  every wire precedes its target node. The node at each place of the sequence is the
  smallest node index that is unblocked after the nodes before it, and the sequence
  depends on the modules and the wires of the template only, so a repeated call
  returns the same sequence.
\<close>

theorem order_topological:
  assumes "well_wired t" and "acyclic (edges t)"
  shows "\<exists>xs. order t = Inr xs \<and>
           length xs = length (tmpl_modules t) \<and> distinct xs \<and>
           set xs = {0..<length (tmpl_modules t)} \<and>
           (\<forall>w \<in> set (tmpl_wires t). precedes xs (fst (wire_source w)) (fst (wire_target w))) \<and>
           (\<forall>k<length (tmpl_modules t).
              unblocked t (take k xs) (xs ! k) \<and> (\<forall>v<xs ! k. \<not> unblocked t (take k xs) v)) \<and>
           (\<forall>t'. tmpl_modules t' = tmpl_modules t \<and> tmpl_wires t' = tmpl_wires t
              \<longrightarrow> order t' = Inr xs)"
proof -
  from assms obtain xs where xs: "order t = Inr xs"
    using order_acyclic_Inr by blast
  have "precedes xs (fst (wire_source w)) (fst (wire_target w))" if "w \<in> set (tmpl_wires t)" for w
  proof -
    from that have "(fst (wire_source w), fst (wire_target w)) \<in> edges t"
      by (simp add: edges_def)
    moreover from that assms(1) have "fst (wire_target w) < length (tmpl_modules t)"
      by (simp add: well_wired_def)
    ultimately show ?thesis using xs by (rule order_Inr(4)[rotated])
  qed
  moreover have "order t' = Inr xs"
    if "tmpl_modules t' = tmpl_modules t \<and> tmpl_wires t' = tmpl_wires t" for t'
    using that xs by (simp add: order_def Let_def)
  ultimately show ?thesis
    using xs order_Inr(1,2,3,5)[OF xs] by blast
qed

theorem order_topological_witness:
  "well_wired (ospec_template ospec_wires) \<and> acyclic (edges (ospec_template ospec_wires)) \<and>
   order (ospec_template ospec_wires) = Inr [0, 2, 3, 4, 5, 6, 1] \<and>
   set [0, 2, 3, 4, 5, 6, 1] = {0..<length (tmpl_modules (ospec_template ospec_wires))} \<and>
   list_all (\<lambda>w. precedes [0, 2, 3, 4, 5, 6, 1] (fst (wire_source w)) (fst (wire_target w)))
     ospec_wires"
proof -
  obtain xs where xs: "order (ospec_template ospec_wires) = Inr xs"
    and all: "set xs = {0..<length (tmpl_modules (ospec_template ospec_wires))}"
    and pre: "\<forall>w \<in> set (tmpl_wires (ospec_template ospec_wires)).
                precedes xs (fst (wire_source w)) (fst (wire_target w))"
    using order_topological[OF ospec_well_wired ospec_acyclic] by blast
  from xs have "xs = [0, 2, 3, 4, 5, 6, 1]"
    by (simp add: ospec_order)
  moreover have "tmpl_wires (ospec_template ospec_wires) = ospec_wires"
    by (simp add: ospec_template_def)
  ultimately show ?thesis
    using xs all pre ospec_well_wired ospec_acyclic by (simp add: list_all_iff)
qed

text \<open>
  C2. For a template whose wires name nodes of the template and whose node-to-node
  edges have a cycle (a self-loop is a cycle of one edge), \<open>order\<close> fails with
  \<open>CycleError\<close>: it returns no sequence, not a part of one, and iterating the template
  fails with the same error before it yields any node.
\<close>

theorem order_cycle_error:
  assumes "well_wired t" and "\<not> acyclic (edges t)"
  shows "order t = Inl CycleError \<and> Template_iter t = Inl CycleError"
proof -
  have "order t = Inl CycleError"
  proof (cases "order t")
    case (Inl e)
    then show ?thesis by (simp add: order_Inl)
  next
    case (Inr xs)
    with assms show ?thesis using order_Inr_acyclic by blast
  qed
  then show ?thesis by (simp add: Template_iter_def)
qed

theorem order_cycle_error_witness:
  "well_wired (ospec_template [wire 0 2, wire 2 2]) \<and>
   \<not> acyclic (edges (ospec_template [wire 0 2, wire 2 2])) \<and>
   order (ospec_template [wire 0 2, wire 2 2]) = Inl CycleError \<and>
   Template_iter (ospec_template [wire 0 2, wire 2 2]) = Inl CycleError \<and>
   well_wired (ospec_template [wire 0 2, wire 2 3, wire 3 2]) \<and>
   \<not> acyclic (edges (ospec_template [wire 0 2, wire 2 3, wire 3 2])) \<and>
   order (ospec_template [wire 0 2, wire 2 3, wire 3 2]) = Inl CycleError \<and>
   Template_iter (ospec_template [wire 0 2, wire 2 3, wire 3 2]) = Inl CycleError"
proof -
  have w1: "well_wired (ospec_template [wire 0 2, wire 2 2])"
    by (simp add: well_wired_def ospec_template_def ospec_modules_def wire_def)
  have c1: "\<not> acyclic (edges (ospec_template [wire 0 2, wire 2 2]))"
    by (rule self_loop_cyclic[of 2]) (simp add: edges_def ospec_template_def wire_def)
  have w2: "well_wired (ospec_template [wire 0 2, wire 2 3, wire 3 2])"
    by (simp add: well_wired_def ospec_template_def ospec_modules_def wire_def)
  have c2: "\<not> acyclic (edges (ospec_template [wire 0 2, wire 2 3, wire 3 2]))"
    by (rule two_cycle_cyclic[of 2 3]) (simp_all add: edges_def ospec_template_def wire_def)
  show ?thesis
    using w1 c1 w2 c2 order_cycle_error[OF w1 c1] order_cycle_error[OF w2 c2] by simp
qed

text \<open>
  C8. When \<open>order\<close> returns the sequence \<open>xs\<close>, iterating the template yields one pair
  for each place of \<open>xs\<close>, in the order of \<open>xs\<close>; the first components are the node
  indices \<open>0..n-1\<close>, each exactly once; the second component of the pair of node \<open>i\<close>
  is the list of the wires whose target node is \<open>i\<close>, in the order in which the
  template declares them.
\<close>

theorem Template_iter_inputs:
  assumes "order t = Inr xs"
  shows "\<exists>ps. Template_iter t = Inr ps \<and> map fst ps = xs \<and>
           distinct (map fst ps) \<and> set (map fst ps) = {0..<length (tmpl_modules t)} \<and>
           (\<forall>(i, inputs) \<in> set ps.
              inputs = filter (\<lambda>w. fst (wire_target w) = i) (tmpl_wires t) \<and>
              subseq inputs (tmpl_wires t) \<and>
              set inputs = {w \<in> set (tmpl_wires t). fst (wire_target w) = i})"
proof -
  let ?ps = "map (\<lambda>i. (i, filter (\<lambda>w. fst (wire_target w) = i) (tmpl_wires t))) xs"
  have "Template_iter t = Inr ?ps"
    using assms by (simp add: Template_iter_def)
  moreover have "map fst ?ps = xs"
    by (simp add: comp_def)
  moreover have "\<forall>(i, inputs) \<in> set ?ps.
      inputs = filter (\<lambda>w. fst (wire_target w) = i) (tmpl_wires t) \<and>
      subseq inputs (tmpl_wires t) \<and>
      set inputs = {w \<in> set (tmpl_wires t). fst (wire_target w) = i}"
    by auto
  ultimately show ?thesis
    using order_Inr(2,3)[OF assms] by (metis (no_types, lifting))
qed

theorem Template_iter_inputs_witness:
  "order (ospec_template ospec_wires) = Inr [0, 2, 3, 4, 5, 6, 1] \<and>
   (\<exists>ps. Template_iter (ospec_template ospec_wires) = Inr ps \<and>
      map fst ps = [0, 2, 3, 4, 5, 6, 1] \<and>
      distinct (map fst ps) \<and>
      set (map fst ps) = {0..<length (tmpl_modules (ospec_template ospec_wires))} \<and>
      (\<forall>(i, inputs) \<in> set ps.
         inputs = filter (\<lambda>w. fst (wire_target w) = i) (tmpl_wires (ospec_template ospec_wires)) \<and>
         subseq inputs (tmpl_wires (ospec_template ospec_wires)) \<and>
         set inputs = {w \<in> set (tmpl_wires (ospec_template ospec_wires)). fst (wire_target w) = i}))"
  by (rule conjI[OF ospec_order Template_iter_inputs[OF ospec_order]])


section \<open>Claims on the registry\<close>

lemma register_module_cases:
  "register_module heap m reg = (Inl ModuleAlreadyRegistered, reg) \<or>
   register_module heap m reg = (Inr (), reg(mod_id (heap m) \<mapsto> m))"
  by (simp add: register_module_def)

lemma registrations_find:
  "\<forall>i. reg i = find (\<lambda>m. mod_id (heap m) = i) acc \<Longrightarrow>
   registrations heap ms (reg, acc) = (reg', acc') \<Longrightarrow>
   \<forall>i. reg' i = find (\<lambda>m. mod_id (heap m) = i) acc'"
proof (induction ms arbitrary: reg acc)
  case Nil
  from Nil.prems(2) have "reg' = reg" and "acc' = acc" by simp_all
  with Nil.prems(1) show ?case by simp
next
  case (Cons m ms)
  consider (conflict) "register_module heap m reg = (Inl ModuleAlreadyRegistered, reg)"
    | (accepted) "register_module heap m reg = (Inr (), reg(mod_id (heap m) \<mapsto> m))"
    using register_module_cases by blast
  then show ?case
  proof cases
    case conflict
    then have "registrations heap ms (reg, acc) = (reg', acc')"
      using Cons.prems(2) by simp
    with Cons.IH Cons.prems(1) show ?thesis by blast
  next
    case accepted
    then have "registrations heap ms (reg(mod_id (heap m) \<mapsto> m), m # acc) = (reg', acc')"
      using Cons.prems(2) by simp
    moreover have "\<forall>i. (reg(mod_id (heap m) \<mapsto> m)) i = find (\<lambda>m. mod_id (heap m) = i) (m # acc)"
      using Cons.prems(1) by simp
    ultimately show ?thesis using Cons.IH by blast
  qed
qed

lemma registrations_dom:
  "registrations heap ms (reg, acc) = (reg', acc') \<Longrightarrow>
   dom reg' = dom reg \<union> (\<lambda>m. mod_id (heap m)) ` set ms"
proof (induction ms arbitrary: reg acc)
  case Nil
  then show ?case by simp
next
  case (Cons m ms)
  show ?case
  proof (cases "mod_id (heap m) \<in> dom reg \<and> Some m \<noteq> reg (mod_id (heap m))")
    case True
    then have "registrations heap ms (reg, acc) = (reg', acc')"
      using Cons.prems by (simp add: register_module_def)
    then have "dom reg' = dom reg \<union> (\<lambda>m. mod_id (heap m)) ` set ms"
      by (rule Cons.IH)
    with True show ?thesis by auto
  next
    case False
    then have "register_module heap m reg = (Inr (), reg(mod_id (heap m) \<mapsto> m))"
      unfolding register_module_def by (rule if_not_P)
    then have "registrations heap ms (reg(mod_id (heap m) \<mapsto> m), m # acc) = (reg', acc')"
      using Cons.prems by simp
    then have "dom reg' = dom (reg(mod_id (heap m) \<mapsto> m)) \<union> (\<lambda>m. mod_id (heap m)) ` set ms"
      by (rule Cons.IH)
    then show ?thesis by auto
  qed
qed

lemma join_copies_id: "mod_id (join_copies r) = ''ospec.join''"
  by (simp add: join_copies_def ospec_module_def)

lemma two_modules_id:
  "mod_id (two_modules 3) = ''ospec.join''" "mod_id (two_modules 4) = ''ospec.wiggle''"
  by (simp_all add: two_modules_def ospec_module_def)

lemma two_modules_id5: "mod_id (two_modules 5) = ''ospec.wiggle''"
  by (simp add: two_modules_def ospec_module_def)

lemma two_modules_history:
  "registrations two_modules [3, 4, 5, 3] (Map.empty, [])
     = ([''ospec.join'' \<mapsto> 3, ''ospec.wiggle'' \<mapsto> 4, ''ospec.join'' \<mapsto> 3], [3, 4, 3])"
  by (simp add: register_module_def two_modules_id two_modules_id5)

text \<open>
  C3, as the claim states it, fails: with a module registered under an id, registering
  another Module object of equal state (a structurally identical definition) under
  that id raises, and does not return as a no-op.
\<close>

theorem register_module_equal_copy_counterexample:
  "join_copies 4 = join_copies 3 \<and>
   [''ospec.join'' \<mapsto> 3::ref] (mod_id (join_copies 4)) = Some 3 \<and>
   register_module join_copies 4 [''ospec.join'' \<mapsto> 3]
     = (Inl ModuleAlreadyRegistered, [''ospec.join'' \<mapsto> 3])"
  by (simp add: register_module_def join_copies_id) (simp add: join_copies_def)

text \<open>
  C3, amended. For every Module object \<open>m\<close> and registry: if nothing is registered
  under the id of \<open>m\<close>, \<open>register_module\<close> inserts \<open>m\<close> under it and returns; if \<open>m\<close>
  itself is registered under its id, \<open>register_module\<close> returns and the registry is as
  before; if another object is registered under the id of \<open>m\<close>, and so whenever the
  registered definition differs in structure from \<open>m\<close>, \<open>register_module\<close> fails with
  \<open>ModuleAlreadyRegistered\<close> and the registry is as before.
\<close>

theorem register_module_by_identity:
  "(reg (mod_id (heap m)) = None \<longrightarrow>
      register_module heap m reg = (Inr (), reg(mod_id (heap m) \<mapsto> m))) \<and>
   (reg (mod_id (heap m)) = Some m \<longrightarrow>
      register_module heap m reg = (Inr (), reg)) \<and>
   (\<forall>m'. reg (mod_id (heap m)) = Some m' \<and> m' \<noteq> m \<longrightarrow>
      register_module heap m reg = (Inl ModuleAlreadyRegistered, reg)) \<and>
   (\<forall>m'. reg (mod_id (heap m)) = Some m' \<and> heap m' \<noteq> heap m \<longrightarrow>
      register_module heap m reg = (Inl ModuleAlreadyRegistered, reg))"
proof (intro conjI impI allI)
  assume "reg (mod_id (heap m)) = None"
  then show "register_module heap m reg = (Inr (), reg(mod_id (heap m) \<mapsto> m))"
    by (simp add: register_module_def dom_def)
next
  assume s: "reg (mod_id (heap m)) = Some m"
  then have "reg(mod_id (heap m) \<mapsto> m) = reg"
    by (rule map_upd_triv)
  with s show "register_module heap m reg = (Inr (), reg)"
    by (simp add: register_module_def)
next
  fix m' assume "reg (mod_id (heap m)) = Some m' \<and> m' \<noteq> m"
  then show "register_module heap m reg = (Inl ModuleAlreadyRegistered, reg)"
    by (auto simp: register_module_def dom_def)
next
  fix m' assume "reg (mod_id (heap m)) = Some m' \<and> heap m' \<noteq> heap m"
  then have "reg (mod_id (heap m)) = Some m'" and "m' \<noteq> m" by auto
  then show "register_module heap m reg = (Inl ModuleAlreadyRegistered, reg)"
    by (auto simp: register_module_def dom_def)
qed

theorem register_module_by_identity_witness:
  "Map.empty (mod_id (two_modules 3)) = (None :: ref option) \<and>
   register_module two_modules 3 Map.empty = (Inr (), [''ospec.join'' \<mapsto> 3]) \<and>
   [''ospec.join'' \<mapsto> 3::ref] (mod_id (two_modules 3)) = Some 3 \<and>
   register_module two_modules 3 [''ospec.join'' \<mapsto> 3] = (Inr (), [''ospec.join'' \<mapsto> 3]) \<and>
   [''ospec.wiggle'' \<mapsto> 3::ref] (mod_id (two_modules 4)) = Some 3 \<and>
   two_modules 3 \<noteq> two_modules 4 \<and>
   register_module two_modules 4 [''ospec.wiggle'' \<mapsto> 3]
     = (Inl ModuleAlreadyRegistered, [''ospec.wiggle'' \<mapsto> 3])"
proof -
  have ne: "two_modules 3 \<noteq> two_modules 4"
    by (simp add: two_modules_def ospec_module_def)
  have h2: "[''ospec.join'' \<mapsto> 3::ref] (mod_id (two_modules 3)) = Some 3"
    by (simp add: two_modules_id)
  have h3: "[''ospec.wiggle'' \<mapsto> 3::ref] (mod_id (two_modules 4)) = Some 3"
    by (simp add: two_modules_id)
  have "register_module two_modules 3 Map.empty = (Inr (), [''ospec.join'' \<mapsto> 3])"
    using register_module_by_identity[of Map.empty two_modules 3]
    by (simp add: two_modules_id)
  moreover
  have "register_module two_modules 3 [''ospec.join'' \<mapsto> 3] = (Inr (), [''ospec.join'' \<mapsto> 3])"
    using h2 register_module_by_identity[of "[''ospec.join'' \<mapsto> 3]" two_modules 3]
    by simp
  moreover
  have "register_module two_modules 4 [''ospec.wiggle'' \<mapsto> 3]
          = (Inl ModuleAlreadyRegistered, [''ospec.wiggle'' \<mapsto> 3])"
    using h3 ne register_module_by_identity[of "[''ospec.wiggle'' \<mapsto> 3]" two_modules 4]
    by simp
  ultimately show ?thesis
    using h2 h3 ne by simp
qed

text \<open>
  C9. After any history of \<open>register_module\<close> calls on the registry, which starts
  empty, \<open>lookup_module\<close> of an id returns the module of the latest call that
  returned for a module of that id, and fails with \<open>KeyError\<close> when there is no such
  call; it fails so exactly when no call was made for a module of that id.
\<close>

theorem lookup_module_latest:
  "lookup_module (fst (registrations heap ms (Map.empty, []))) i =
     (case find (\<lambda>m. mod_id (heap m) = i) (snd (registrations heap ms (Map.empty, []))) of
        None \<Rightarrow> Inl (KeyError i)
      | Some m \<Rightarrow> Inr m) \<and>
   (lookup_module (fst (registrations heap ms (Map.empty, []))) i = Inl (KeyError i)
      \<longleftrightarrow> (\<forall>m \<in> set ms. mod_id (heap m) \<noteq> i))"
proof -
  obtain reg acc where r: "registrations heap ms (Map.empty, []) = (reg, acc)"
    by (cases "registrations heap ms (Map.empty, [])")
  have "\<forall>i. Map.empty i = find (\<lambda>m. mod_id (heap m) = i) []"
    by simp
  from this r have "\<forall>i. reg i = find (\<lambda>m. mod_id (heap m) = i) acc"
    by (rule registrations_find)
  then have a: "lookup_module reg i =
     (case find (\<lambda>m. mod_id (heap m) = i) acc of None \<Rightarrow> Inl (KeyError i) | Some m \<Rightarrow> Inr m)"
    by (simp add: lookup_module_def)
  have "dom reg = (\<lambda>m. mod_id (heap m)) ` set ms"
    using registrations_dom[OF r] by simp
  then have "i \<notin> dom reg \<longleftrightarrow> (\<forall>m \<in> set ms. mod_id (heap m) \<noteq> i)"
    by auto
  then have "reg i = None \<longleftrightarrow> (\<forall>m \<in> set ms. mod_id (heap m) \<noteq> i)"
    by (simp add: domIff)
  moreover have "lookup_module reg i = Inl (KeyError i) \<longleftrightarrow> reg i = None"
    by (simp add: lookup_module_def split: option.splits)
  ultimately have b: "lookup_module reg i = Inl (KeyError i)
      \<longleftrightarrow> (\<forall>m \<in> set ms. mod_id (heap m) \<noteq> i)"
    by simp
  from a b show ?thesis
    by (simp add: r)
qed

theorem lookup_module_latest_witness:
  "lookup_module (fst (registrations two_modules [3, 4, 5, 3] (Map.empty, []))) ''ospec.join''
     = Inr 3 \<and>
   lookup_module (fst (registrations two_modules [3, 4, 5, 3] (Map.empty, []))) ''ospec.wiggle''
     = Inr 4 \<and>
   list_all (\<lambda>m. mod_id (two_modules m) \<noteq> ''ospec.load'') [3, 4, 5, 3] \<and>
   lookup_module (fst (registrations two_modules [3, 4, 5, 3] (Map.empty, []))) ''ospec.load''
     = Inl (KeyError ''ospec.load'')"
proof -
  have none: "\<forall>m \<in> set [3, 4, 5, 3]. mod_id (two_modules m) \<noteq> ''ospec.load''"
    by (simp add: two_modules_id two_modules_id5)
  have "lookup_module (fst (registrations two_modules [3, 4, 5, 3] (Map.empty, []))) ''ospec.join''
     = Inr 3"
    using lookup_module_latest[of two_modules "[3, 4, 5, 3]" "''ospec.join''"]
    unfolding two_modules_history by (simp add: two_modules_id)
  moreover
  have "lookup_module (fst (registrations two_modules [3, 4, 5, 3] (Map.empty, []))) ''ospec.wiggle''
     = Inr 4"
    using lookup_module_latest[of two_modules "[3, 4, 5, 3]" "''ospec.wiggle''"]
    unfolding two_modules_history by (simp add: two_modules_id)
  moreover
  have "lookup_module (fst (registrations two_modules [3, 4, 5, 3] (Map.empty, []))) ''ospec.load''
     = Inl (KeyError ''ospec.load'')"
    using none lookup_module_latest[of two_modules "[3, 4, 5, 3]" "''ospec.load''"]
    by blast
  ultimately show ?thesis
    using none by (simp add: list_all_iff)
qed


section \<open>Claims on the instrument\<close>

lemma used_referenced:
  "(\<Union>m \<in> set ms. set (map term_datatype (mod_terminals m))) = referenced ms"
  by (auto simp: referenced_def)

lemma check_datatypes_eq:
  "check_datatypes self =
     (if referenced (inst_modules self) - declared (inst_datatypes self) \<noteq> {}
      then Inl (UndefinedTypes (referenced (inst_modules self) - declared (inst_datatypes self)))
      else if declared (inst_datatypes self) - referenced (inst_modules self) \<noteq> {}
      then Inl (UnusedTypes (declared (inst_datatypes self) - referenced (inst_modules self)))
      else Inr ())"
proof -
  have "set (map dtype_id (inst_datatypes self)) = declared (inst_datatypes self)"
    by (simp add: declared_def)
  then show ?thesis
    unfolding check_datatypes_def Let_def used_referenced by simp
qed

lemma check_names_eq:
  "check_names self =
     (if distinct (map mod_name (inst_modules self)) then Inr () else Inl NamesNotUnique)"
proof -
  have "card (set (map mod_name (inst_modules self))) = length (inst_modules self)
          \<longleftrightarrow> distinct (map mod_name (inst_modules self))"
    using card_distinct[of "map mod_name (inst_modules self)"]
      distinct_card[of "map mod_name (inst_modules self)"] by auto
  then show ?thesis
    by (simp add: check_names_def Let_def)
qed

lemma Instrument_init_eq:
  "Instrument_init i name menu datatypes requires archive =
     (if referenced (concat (map snd menu)) - declared datatypes \<noteq> {}
      then Inl (UndefinedTypes (referenced (concat (map snd menu)) - declared datatypes))
      else if declared datatypes - referenced (concat (map snd menu)) \<noteq> {}
      then Inl (UnusedTypes (declared datatypes - referenced (concat (map snd menu))))
      else if \<not> distinct (map mod_name (concat (map snd menu))) then Inl NamesNotUnique
      else Inr \<lparr>inst_id = i, inst_name = name, inst_menu = menu,
                 inst_datatypes = datatypes, inst_requires = requires,
                 inst_archive = archive, inst_modules = concat (map snd menu)\<rparr>)"
  by (simp add: Instrument_init_def check_datatypes_eq check_names_eq Let_def)

lemma referenced_ospec:
  "referenced [ospec_module a b] = {''data2d.ospec''}"
  "referenced [ospec_module a b, ospec_module c d] = {''data2d.ospec''}"
  "referenced [] = {}"
  by (simp_all add: used_referenced[symmetric] ospec_module_def ospec_terminals_def)

lemma declared_ospec: "declared [data2d] = {''data2d.ospec''}" "declared [] = {}"
  by (simp_all add: declared_def data2d_def)

lemma menu_modules:
  "concat (map snd reduction_menu) =
     [ospec_module ''ospec.join'' ''Join'', ospec_module ''ospec.wiggle'' ''Wiggle'']"
  "concat (map snd doubled_menu) =
     [ospec_module ''ospec.join'' ''Join'', ospec_module ''ospec.sum'' ''Join'']"
  by (simp_all add: reduction_menu_def doubled_menu_def)

lemma menu_names:
  "distinct (map mod_name (concat (map snd reduction_menu)))"
  "\<not> distinct (map mod_name (concat (map snd doubled_menu)))"
  by (simp_all add: menu_modules ospec_module_def)

lemma andr_good: "andr reduction_menu [data2d] = Inr (andr_instrument reduction_menu [data2d])"
  unfolding andr_def Instrument_init_eq andr_instrument_def
  by (simp add: menu_names) (simp add: menu_modules referenced_ospec declared_ospec)

text \<open>
  C4. An instrument is constructed only if the set of datatype ids it declares equals
  the set of datatype ids that the terminals of its modules reference. When the two
  sets differ the constructor fails, with \<open>UndefinedTypes\<close> of the referenced ids that
  are not declared when there are some, and with \<open>UnusedTypes\<close> of the declared ids
  that are not referenced otherwise.
\<close>

theorem Instrument_init_datatypes:
  "(Instrument_init i name menu datatypes requires archive = Inr self \<longrightarrow>
      declared datatypes = referenced (concat (map snd menu))) \<and>
   (declared datatypes \<noteq> referenced (concat (map snd menu)) \<longrightarrow>
      Instrument_init i name menu datatypes requires archive =
        Inl (if referenced (concat (map snd menu)) - declared datatypes \<noteq> {}
             then UndefinedTypes (referenced (concat (map snd menu)) - declared datatypes)
             else UnusedTypes (declared datatypes - referenced (concat (map snd menu)))))"
proof (intro conjI impI)
  assume "Instrument_init i name menu datatypes requires archive = Inr self"
  then have "referenced (concat (map snd menu)) - declared datatypes = {}"
    and "declared datatypes - referenced (concat (map snd menu)) = {}"
    by (simp_all add: Instrument_init_eq split: if_splits)
  then show "declared datatypes = referenced (concat (map snd menu))"
    by blast
next
  assume ne: "declared datatypes \<noteq> referenced (concat (map snd menu))"
  show "Instrument_init i name menu datatypes requires archive =
        Inl (if referenced (concat (map snd menu)) - declared datatypes \<noteq> {}
             then UndefinedTypes (referenced (concat (map snd menu)) - declared datatypes)
             else UnusedTypes (declared datatypes - referenced (concat (map snd menu))))"
  proof (cases "referenced (concat (map snd menu)) - declared datatypes = {}")
    case True
    with ne have "declared datatypes - referenced (concat (map snd menu)) \<noteq> {}"
      by blast
    with True show ?thesis by (simp add: Instrument_init_eq)
  next
    case False
    then show ?thesis by (simp add: Instrument_init_eq)
  qed
qed

theorem Instrument_init_datatypes_witness:
  "andr reduction_menu [data2d] = Inr (andr_instrument reduction_menu [data2d]) \<and>
   declared [data2d] = referenced (concat (map snd reduction_menu)) \<and>
   declared [] \<noteq> referenced (concat (map snd reduction_menu)) \<and>
   andr reduction_menu [] = Inl (UndefinedTypes {''data2d.ospec''}) \<and>
   declared [data2d] \<noteq> referenced (concat (map snd [])) \<and>
   andr [] [data2d] = Inl (UnusedTypes {''data2d.ospec''})"
proof -
  have h2: "declared [] \<noteq> referenced (concat (map snd reduction_menu))"
    by (simp add: menu_modules referenced_ospec declared_ospec)
  have h3: "declared [data2d] \<noteq> referenced (concat (map snd []))"
    by (simp add: referenced_ospec declared_ospec)
  have "declared [data2d] = referenced (concat (map snd reduction_menu))"
    using andr_good
      Instrument_init_datatypes[of "''ncnr.ospec.andr''" "''NCNR ANDR''" reduction_menu "[data2d]"
        "[''ospecplot.js'']" "''andr''" "andr_instrument reduction_menu [data2d]"]
    by (simp add: andr_def)
  moreover have "andr reduction_menu [] = Inl (UndefinedTypes {''data2d.ospec''})"
    using h2
      Instrument_init_datatypes[of "''ncnr.ospec.andr''" "''NCNR ANDR''" reduction_menu "[]"
        "[''ospecplot.js'']" "''andr''"]
    by (simp add: andr_def menu_modules referenced_ospec declared_ospec)
  moreover have "andr [] [data2d] = Inl (UnusedTypes {''data2d.ospec''})"
    using h3
      Instrument_init_datatypes[of "''ncnr.ospec.andr''" "''NCNR ANDR''" "[]" "[data2d]"
        "[''ospecplot.js'']" "''andr''"]
    by (simp add: andr_def referenced_ospec declared_ospec)
  ultimately show ?thesis
    using andr_good h2 h3 by simp
qed

lemma doubled_undeclared: "declared [] \<noteq> referenced (concat (map snd doubled_menu))"
  by (simp add: menu_modules referenced_ospec declared_ospec)

lemma doubled_declared: "declared [data2d] = referenced (concat (map snd doubled_menu))"
  by (simp add: menu_modules referenced_ospec declared_ospec)

lemma doubled_missing:
  "referenced (concat (map snd doubled_menu)) - declared [] = {''data2d.ospec''}"
  by (simp add: menu_modules referenced_ospec declared_ospec)

text \<open>
  C7, as the claim states it, fails: for an instrument in which two modules share a
  display name and a terminal references an undeclared datatype, the constructor
  fails on the datatype check, which runs first, and not with \<open>NamesNotUnique\<close>.
\<close>

theorem Instrument_init_names_counterexample:
  "\<not> distinct (map mod_name (concat (map snd doubled_menu))) \<and>
   andr doubled_menu [] = Inl (UndefinedTypes {''data2d.ospec''}) \<and>
   andr doubled_menu [] \<noteq> Inl NamesNotUnique"
proof -
  have "andr doubled_menu [] = Inl (UndefinedTypes {''data2d.ospec''})"
    unfolding andr_def Instrument_init_eq
    by (simp add: menu_modules referenced_ospec declared_ospec)
  then show ?thesis
    using menu_names(2) by simp
qed

text \<open>
  C7, amended. An instrument is constructed only if the display names of its modules
  are pairwise different. When two or more modules share a display name the
  constructor fails: with \<open>NamesNotUnique\<close> when the declared datatype ids equal the
  referenced ones, and otherwise with the error of the datatype check, which runs
  first (\<open>UndefinedTypes\<close> of the referenced ids that are not declared when there are
  some, \<open>UnusedTypes\<close> of the declared ids that are not referenced otherwise).
\<close>

theorem Instrument_init_names:
  "(Instrument_init i name menu datatypes requires archive = Inr self \<longrightarrow>
      distinct (map mod_name (concat (map snd menu)))) \<and>
   (\<not> distinct (map mod_name (concat (map snd menu))) \<longrightarrow>
      (\<exists>e. Instrument_init i name menu datatypes requires archive = Inl e)) \<and>
   (\<not> distinct (map mod_name (concat (map snd menu))) \<and>
    declared datatypes = referenced (concat (map snd menu)) \<longrightarrow>
      Instrument_init i name menu datatypes requires archive = Inl NamesNotUnique) \<and>
   (\<not> distinct (map mod_name (concat (map snd menu))) \<and>
    declared datatypes \<noteq> referenced (concat (map snd menu)) \<longrightarrow>
      Instrument_init i name menu datatypes requires archive =
        Inl (if referenced (concat (map snd menu)) - declared datatypes \<noteq> {}
             then UndefinedTypes (referenced (concat (map snd menu)) - declared datatypes)
             else UnusedTypes (declared datatypes - referenced (concat (map snd menu)))))"
proof (intro conjI impI)
  assume "Instrument_init i name menu datatypes requires archive = Inr self"
  then show "distinct (map mod_name (concat (map snd menu)))"
    by (simp add: Instrument_init_eq split: if_splits)
next
  assume "\<not> distinct (map mod_name (concat (map snd menu)))"
  then show "\<exists>e. Instrument_init i name menu datatypes requires archive = Inl e"
    by (simp add: Instrument_init_eq)
next
  assume "\<not> distinct (map mod_name (concat (map snd menu))) \<and>
    declared datatypes = referenced (concat (map snd menu))"
  then show "Instrument_init i name menu datatypes requires archive = Inl NamesNotUnique"
    by (simp add: Instrument_init_eq)
next
  assume a: "\<not> distinct (map mod_name (concat (map snd menu))) \<and>
    declared datatypes \<noteq> referenced (concat (map snd menu))"
  then have ne: "declared datatypes \<noteq> referenced (concat (map snd menu))"
    by (rule conjunct2)
  show "Instrument_init i name menu datatypes requires archive =
        Inl (if referenced (concat (map snd menu)) - declared datatypes \<noteq> {}
             then UndefinedTypes (referenced (concat (map snd menu)) - declared datatypes)
             else UnusedTypes (declared datatypes - referenced (concat (map snd menu))))"
  proof (cases "referenced (concat (map snd menu)) - declared datatypes = {}")
    case True
    with ne have "declared datatypes - referenced (concat (map snd menu)) \<noteq> {}"
      by blast
    with True show ?thesis by (simp add: Instrument_init_eq)
  next
    case False
    then show ?thesis by (simp add: Instrument_init_eq)
  qed
qed

theorem Instrument_init_names_witness:
  "andr reduction_menu [data2d] = Inr (andr_instrument reduction_menu [data2d]) \<and>
   distinct (map mod_name (concat (map snd reduction_menu))) \<and>
   \<not> distinct (map mod_name (concat (map snd doubled_menu))) \<and>
   declared [data2d] = referenced (concat (map snd doubled_menu)) \<and>
   andr doubled_menu [data2d] = Inl NamesNotUnique \<and>
   declared [] \<noteq> referenced (concat (map snd doubled_menu)) \<and>
   andr doubled_menu [] = Inl (UndefinedTypes {''data2d.ospec''})"
proof -
  note good = andr_good[unfolded andr_def]
  have d: "distinct (map mod_name (concat (map snd reduction_menu)))"
    using Instrument_init_names[of "''ncnr.ospec.andr''" "''NCNR ANDR''" reduction_menu "[data2d]"
        "[''ospecplot.js'']" "''andr''" "andr_instrument reduction_menu [data2d]",
        THEN conjunct1] good
    by (rule mp)
  have n: "andr doubled_menu [data2d] = Inl NamesNotUnique"
    unfolding andr_def
    using Instrument_init_names[of "''ncnr.ospec.andr''" "''NCNR ANDR''" doubled_menu "[data2d]"
        "[''ospecplot.js'']" "''andr''", THEN conjunct2, THEN conjunct2, THEN conjunct1]
      conjI[OF menu_names(2) doubled_declared]
    by (rule mp)
  have "andr doubled_menu [] =
      Inl (if referenced (concat (map snd doubled_menu)) - declared [] \<noteq> {}
           then UndefinedTypes (referenced (concat (map snd doubled_menu)) - declared [])
           else UnusedTypes (declared [] - referenced (concat (map snd doubled_menu))))"
    unfolding andr_def
    using Instrument_init_names[of "''ncnr.ospec.andr''" "''NCNR ANDR''" doubled_menu "[]"
        "[''ospecplot.js'']" "''andr''", THEN conjunct2, THEN conjunct2, THEN conjunct2]
      conjI[OF menu_names(2) doubled_undeclared]
    by (rule mp)
  then have u: "andr doubled_menu [] = Inl (UndefinedTypes {''data2d.ospec''})"
    by (simp add: doubled_missing)
  from andr_good d menu_names(2) doubled_declared n doubled_undeclared u
  show ?thesis by (intro conjI)
qed


section \<open>Claims on persistence\<close>

text \<open>
  C5. Loading a persisted Template whose tag is not \<^verbatim>\<open>'1.0'\<close>, the one tag the engine
  supports, fails with \<open>TemplateDefinitionMismatch\<close>: no template is returned, so no
  state of another format is migrated or coerced.
\<close>

theorem Template_setstate_rejects:
  "version \<noteq> ''1.0'' \<Longrightarrow> Template_setstate (version, st) = Inl TemplateDefinitionMismatch"
  by (simp add: Template_setstate_def)

theorem Template_setstate_rejects_witness:
  "''0.9'' \<noteq> ''1.0'' \<and>
   Template_setstate (''0.9'', ospec_template ospec_wires) = Inl TemplateDefinitionMismatch"
  using Template_setstate_rejects[of "''0.9''" "ospec_template ospec_wires"] by simp

text \<open>
  C10. \<^verbatim>\<open>__getstate__\<close> of a Template returns the tag \<^verbatim>\<open>'1.0'\<close> with the attributes
  of the template, \<^verbatim>\<open>__setstate__\<close> returns a template for exactly that tag, and
  \<^verbatim>\<open>__setstate__\<close> after \<^verbatim>\<open>__getstate__\<close> gives the template back with all its
  attributes.
\<close>

theorem Template_pickle_roundtrip:
  "Template_setstate (Template_getstate t) = Inr t \<and>
   fst (Template_getstate t) = ''1.0'' \<and>
   snd (Template_getstate t) = t \<and>
   ((\<exists>t'. Template_setstate (v, st) = Inr t') \<longleftrightarrow> v = ''1.0'')"
  by (simp add: Template_setstate_def Template_getstate_def)

theorem Template_pickle_roundtrip_witness:
  "Template_setstate (Template_getstate (ospec_template ospec_wires))
     = Inr (ospec_template ospec_wires) \<and>
   (\<exists>t'. Template_setstate (''1.0'', ospec_template ospec_wires) = Inr t') \<and>
   \<not> (\<exists>t'. Template_setstate (''2.0'', ospec_template ospec_wires) = Inr t')"
  using
    Template_pickle_roundtrip[of "ospec_template ospec_wires" "''1.0''" "ospec_template ospec_wires"]
    Template_pickle_roundtrip[of "ospec_template ospec_wires" "''2.0''" "ospec_template ospec_wires"]
  by simp

text \<open>
  C6, on the code, for a Data and the tag \<^verbatim>\<open>'0.9'\<close>, which is not the tag \<^verbatim>\<open>'1.0'\<close> that
  \<^verbatim>\<open>Data.__getstate__\<close> is written to emit: \<^verbatim>\<open>Data.__getstate__\<close> raises \<open>NameError\<close>,
  so it produces no tagged state, and \<^verbatim>\<open>Data.__setstate__\<close> installs the state of that
  tag where \<open>Template_setstate\<close> fails.
\<close>

theorem Data_setstate_ignores_tag:
  "Data_getstate some_data = Inl (NameError ''__dict__'') \<and>
   Data_setstate (''0.9'', some_data) = Inr some_data"
  by (simp add: Data_getstate_def Data_setstate_def)

end
